theory Spec2Isabelle
  imports Main
begin

section \<open>The spreadsheet grid of VirtualizedGrid/index.tsx\<close>

text \<open>
  The engine of the component: the cell-key and label codec, the raw-content store
  \<open>gridData\<close>, the display cache \<open>calculationCache\<close> and the recursive formula
  evaluation \<open>displayValue\<close>.

  Row and column numbers are JavaScript Numbers holding integers; they are modelled as
  \<open>int\<close>, with the rounding of the host's arithmetic and the host's way of writing a
  Number as text written out. Strings are lists of \<open>char\<close>.
\<close>

subsection \<open>Characters and decimal text\<close>

definition fromCharCode :: "int \<Rightarrow> char" where
  \<comment> \<open>\<open>String.fromCharCode\<close>, for codes below 256\<close>
  "fromCharCode n = char_of n"

definition charCodeAt :: "char \<Rightarrow> int" where
  "charCodeAt c = of_char c"

definition isUpper :: "char \<Rightarrow> bool" where
  \<comment> \<open>the regular-expression class \<open>[A-Z]\<close>\<close>
  "isUpper c = (65 \<le> charCodeAt c \<and> charCodeAt c \<le> 90)"

definition isDigit :: "char \<Rightarrow> bool" where
  \<comment> \<open>the regular-expression class \<open>\d\<close>\<close>
  "isDigit c = (48 \<le> charCodeAt c \<and> charCodeAt c \<le> 57)"

subsection \<open>Numbers\<close>

text \<open>
  A Number that holds an integer is an \<open>int\<close>. The host rounds the result of every
  arithmetic operation to the nearest value it can represent (a multiple of a power of
  two with 53 significant bits; a tie goes to the even multiple), which changes nothing
  up to \<open>2^53\<close>. \<open>roundDouble\<close> is that rounding, for integers below the host's
  largest Number.
\<close>

fun bitLength :: "nat \<Rightarrow> nat" where
  "bitLength n = (if n = 0 then 0 else Suc (bitLength (n div 2)))"

declare bitLength.simps [simp del]

definition roundNat :: "nat \<Rightarrow> nat" where
  "roundNat a =
     (if a \<le> 2 ^ 53 then a
      else let u = 2 ^ (bitLength a - 53); q = a div u; r = a mod u
           in if 2 * r < u then q * u
              else if u < 2 * r then (q + 1) * u
              else if even q then q * u else (q + 1) * u)"

definition roundDouble :: "int \<Rightarrow> int" where
  "roundDouble n = (if n < 0 then - int (roundNat (nat (- n))) else int (roundNat (nat n)))"

fun digitsOf :: "nat \<Rightarrow> string" where
  "digitsOf n = (if n < 10 then [fromCharCode (48 + int n)]
                 else digitsOf (n div 10) @ [fromCharCode (48 + int (n mod 10))])"

declare digitsOf.simps [simp del]

text \<open>
  The text of a Number is its decimal digits up to \<open>2^53\<close>. Above, the host writes the
  decimal with the fewest significant digits that reads back as the same Number (the
  nearest one, the even one on a tie), followed by zeros below \<open>10^21\<close> and in exponent
  form from there.
\<close>

definition candidate :: "nat \<Rightarrow> nat \<Rightarrow> nat option" where
  \<comment> \<open>the decimal of \<open>k\<close> significant digits next to \<open>a\<close> that reads back as \<open>a\<close>\<close>
  "candidate a k =
     (let sc = 10 ^ (length (digitsOf a) - k); lo = (a div sc) * sc; hi = lo + sc
      in if roundNat lo = a \<and> roundNat hi = a then
           (if a - lo < hi - a then Some lo
            else if hi - a < a - lo then Some hi
            else if even (a div sc) then Some lo else Some hi)
         else if roundNat lo = a then Some lo
         else if roundNat hi = a then Some hi
         else None)"

definition shortest :: "nat \<Rightarrow> nat" where
  "shortest a =
     (case List.map_filter (candidate a) [1 ..< Suc (length (digitsOf a))] of
        [] \<Rightarrow> a
      | c # _ \<Rightarrow> c)"

fun trailingZeros :: "nat \<Rightarrow> nat" where
  "trailingZeros n = (if n = 0 \<or> n mod 10 \<noteq> 0 then 0 else Suc (trailingZeros (n div 10)))"

declare trailingZeros.simps [simp del]

definition exponentForm :: "nat \<Rightarrow> string" where
  \<comment> \<open>\<open>d.ddde+x\<close>, or \<open>de+x\<close> for a single digit\<close>
  "exponentForm c =
     (let z = trailingZeros c
      in case digitsOf (c div 10 ^ z) of
           [] \<Rightarrow> []
         | d # ds \<Rightarrow> d # (if ds = [] then [] else CHR ''.'' # ds) @ ''e+'' @ digitsOf (length ds + z))"

definition unsignedText :: "nat \<Rightarrow> string" where
  "unsignedText a =
     (if a \<le> 2 ^ 53 then digitsOf a
      else if shortest a < 10 ^ 21 then digitsOf (shortest a)
      else exponentForm (shortest a))"

definition numberToString :: "int \<Rightarrow> string" where
  \<comment> \<open>the text of an integer Number inside a template literal\<close>
  "numberToString n = (if n < 0 then CHR ''-'' # unsignedText (nat (- n)) else unsignedText (nat n))"

definition decimalValue :: "string \<Rightarrow> nat" where
  "decimalValue s = foldl (\<lambda>acc c. acc * 10 + nat (charCodeAt c - 48)) 0 s"

definition parseInt :: "string \<Rightarrow> int" where
  \<comment> \<open>\<open>parseInt\<close> on a run of decimal digits, the only argument the source gives it:
      the Number nearest to the integer the digits write\<close>
  "parseInt s = int (roundNat (decimalValue s))"

subsection \<open>Cell keys and labels\<close>

definition getCellKey :: "int \<Rightarrow> int \<Rightarrow> string" where
  "getCellKey row col = numberToString row @ '','' @ numberToString col"

function colLoop :: "int \<Rightarrow> string \<Rightarrow> string" where
  "colLoop colNum colLabel =
     (if colNum \<ge> 0 then
        (let colLabel' = fromCharCode (65 + colNum mod 26) # colLabel;
             colNum' = colNum div 26 - 1
         in if colNum' < 0 then colLabel' else colLoop colNum' colLabel')
      else colLabel)"
  by pat_completeness auto
termination
  by (relation "measure (\<lambda>(colNum, colLabel). nat (colNum + 1))") auto

declare colLoop.simps [simp del]

definition cellKeyToLabel :: "int \<Rightarrow> int \<Rightarrow> string" where
  "cellKeyToLabel row col = colLoop col [] @ numberToString (roundDouble (row + 1))"

definition colOfLetters :: "string \<Rightarrow> int" where
  \<comment> \<open>the \<open>for\<close> loop of \<open>labelToCellKey\<close>\<close>
  "colOfLetters colLetters =
     foldl (\<lambda>col c. roundDouble (roundDouble (col * 26) + (charCodeAt c - 65 + 1))) 0 colLetters"

definition labelToCellKey :: "string \<Rightarrow> string option" where
  \<comment> \<open>\<open>label.match(/^([A-Z]+)(\d+)$/)\<close>: the letters are the longest run of capitals,
      the rest must be a non-empty run of digits\<close>
  "labelToCellKey label =
     (let colLetters = takeWhile isUpper label;
          rowStr = dropWhile isUpper label
      in if colLetters = [] \<or> rowStr = [] \<or> \<not> list_all isDigit rowStr then None
         else Some (numberToString (roundDouble (parseInt rowStr - 1)) @ '','' @
                    numberToString (roundDouble (colOfLetters colLetters - 1))))"

definition splitComma :: "string \<Rightarrow> string list" where
  \<comment> \<open>\<open>key.split(",")\<close>\<close>
  "splitComma s = foldr (\<lambda>c parts. if c = CHR '','' then [] # parts
                                   else (case parts of [] \<Rightarrow> [[c]] | p # ps \<Rightarrow> (c # p) # ps)) s [[]]"

definition unsignedValue :: "string \<Rightarrow> nat option" where
  \<comment> \<open>digits, or digits with a fraction and an exponent, that write an integer\<close>
  "unsignedValue t =
     (let mant = takeWhile (\<lambda>c. c \<noteq> CHR ''e'') t;
          ex = dropWhile (\<lambda>c. c \<noteq> CHR ''e'') t;
          ip = takeWhile isDigit mant;
          fp = (case dropWhile isDigit mant of
                  [] \<Rightarrow> Some []
                | d # ds \<Rightarrow> if d = CHR ''.'' \<and> ds \<noteq> [] \<and> list_all isDigit ds then Some ds else None);
          ev = (case ex of
                  [] \<Rightarrow> Some 0
                | e # p \<Rightarrow>
                    (case p of
                       [] \<Rightarrow> None
                     | sg # ds \<Rightarrow>
                         if sg = CHR ''+'' \<and> ds \<noteq> [] \<and> list_all isDigit ds
                         then Some (decimalValue ds) else None))
      in case fp of
           None \<Rightarrow> None
         | Some f \<Rightarrow>
             (case ev of
                None \<Rightarrow> None
              | Some x \<Rightarrow>
                  if ip \<noteq> [] \<and> length f \<le> x
                  then Some (roundNat (decimalValue (ip @ f) * 10 ^ (x - length f)))
                  else None))"

definition toNumber :: "string \<Rightarrow> int option" where
  \<comment> \<open>\<open>Number\<close> on the text of an integer Number, as \<open>getCellKey\<close> and
      \<open>labelToCellKey\<close> write it; \<open>None\<close> on any other text\<close>
  "toNumber s =
     (case s of
        [] \<Rightarrow> None
      | c # ds \<Rightarrow>
          if c = CHR ''-'' then map_option (\<lambda>v. - int v) (unsignedValue ds)
          else map_option int (unsignedValue s))"

definition keyToCoords :: "string \<Rightarrow> (int \<times> int) option" where
  \<comment> \<open>\<open>const [refRow, refCol] = key.split(",").map(Number)\<close>\<close>
  "keyToCoords key =
     (case splitComma key of
        a # b # _ \<Rightarrow>
          (case toNumber a of
             None \<Rightarrow> None
           | Some refRow \<Rightarrow> (case toNumber b of None \<Rightarrow> None | Some refCol \<Rightarrow> Some (refRow, refCol)))
      | _ \<Rightarrow> None)"

subsection \<open>Scanning a formula for reference tokens\<close>

text \<open>
  \<open>expr.replace(/[A-Z]+\d+/g, callback)\<close> finds the matches from left to right, each
  one starting at the first position after the previous match where the pattern
  matches, and calls the callback on them in that order. At a given position the
  pattern can only match with the longest run of capitals (a shorter run is followed by
  a capital, not a digit) and, being greedy, takes the longest run of digits after it.
\<close>

definition matchLabel :: "string \<Rightarrow> (string \<times> string) option" where
  \<comment> \<open>the match of \<open>[A-Z]+\d+\<close> at the start of the text, and the text after it\<close>
  "matchLabel s =
     (let letters = takeWhile isUpper s;
          digits = takeWhile isDigit (dropWhile isUpper s)
      in if letters = [] \<or> digits = [] then None
         else Some (letters @ digits, dropWhile isDigit (dropWhile isUpper s)))"

datatype piece = Plain char | Token string

function pieces :: "string \<Rightarrow> piece list" where
  "pieces [] = []"
| "pieces (c # cs) =
     (case matchLabel (c # cs) of
        Some (label, rest) \<Rightarrow> Token label # pieces rest
      | None \<Rightarrow> Plain c # pieces cs)"
  by pat_completeness auto
termination
proof (relation "measure length")
  fix c cs x label rest
  assume "matchLabel (c # cs) = Some x" and "(label, rest) = x"
  then have rest: "rest = dropWhile isDigit (dropWhile isUpper (c # cs))"
    and up: "takeWhile isUpper (c # cs) \<noteq> []"
    by (auto simp: matchLabel_def Let_def split: if_splits)
  from up have "isUpper c" by (auto split: if_splits)
  then have "length (dropWhile isUpper (c # cs)) \<le> length cs"
    by (simp add: length_dropWhile_le)
  moreover have "length rest \<le> length (dropWhile isUpper (c # cs))"
    unfolding rest by (rule length_dropWhile_le)
  ultimately show "(rest, c # cs) \<in> measure length" by simp
qed simp_all

declare pieces.simps [simp del]

subsection \<open>The host functions the evaluation calls\<close>

definition isSpace :: "char \<Rightarrow> bool" where
  \<comment> \<open>white space and line terminators that \<open>Number\<close> strips, among the codes below 256\<close>
  "isSpace c = (charCodeAt c \<in> {9, 10, 11, 12, 13, 32, 160})"

definition optSign :: "string \<Rightarrow> string" where
  "optSign s = (case s of [] \<Rightarrow> [] | c # cs \<Rightarrow> if c = CHR ''+'' \<or> c = CHR ''-'' then cs else s)"

definition exponentPart :: "string \<Rightarrow> bool" where
  \<comment> \<open>nothing, or \<open>e\<close>/\<open>E\<close>, an optional sign and digits\<close>
  "exponentPart s =
     (case s of
        [] \<Rightarrow> True
      | c # cs \<Rightarrow> (c = CHR ''e'' \<or> c = CHR ''E'') \<and> optSign cs \<noteq> [] \<and> list_all isDigit (optSign cs))"

definition unsignedDecimal :: "string \<Rightarrow> bool" where
  "unsignedDecimal s =
     (s = ''Infinity'' \<or>
      (let ip = takeWhile isDigit s; r = dropWhile isDigit s
       in case r of
            c # t \<Rightarrow>
              if c = CHR ''.''
              then (ip \<noteq> [] \<or> takeWhile isDigit t \<noteq> []) \<and> exponentPart (dropWhile isDigit t)
              else ip \<noteq> [] \<and> exponentPart r
          | [] \<Rightarrow> ip \<noteq> []))"

definition radixDigits :: "string \<Rightarrow> string \<Rightarrow> bool" where
  "radixDigits allowed ds = (ds \<noteq> [] \<and> list_all (\<lambda>c. c \<in> set allowed) ds)"

definition nonDecimal :: "string \<Rightarrow> bool" where
  \<comment> \<open>\<open>0x\<close>, \<open>0o\<close> and \<open>0b\<close> integers\<close>
  "nonDecimal s =
     (case s of
        z # p # ds \<Rightarrow>
          z = CHR ''0'' \<and>
          ((p \<in> set ''xX'' \<and> radixDigits ''0123456789abcdefABCDEF'' ds) \<or>
           (p \<in> set ''oO'' \<and> radixDigits ''01234567'' ds) \<or>
           (p \<in> set ''bB'' \<and> radixDigits ''01'' ds))
      | _ \<Rightarrow> False)"

definition trimSpace :: "string \<Rightarrow> string" where
  "trimSpace s = rev (dropWhile isSpace (rev (dropWhile isSpace s)))"

definition isNaNNumber :: "string \<Rightarrow> bool" where
  \<comment> \<open>\<open>isNaN(Number(val))\<close>: the text, white space stripped, is neither empty nor a
      numeric literal of the string-to-number grammar\<close>
  "isNaNNumber val =
     (let s = trimSpace val
      in \<not> (s = [] \<or> nonDecimal s \<or> unsignedDecimal (optSign s)))"

text \<open>
  \<open>new Function(`return ${parsedExpr}`)()\<close> compiles and runs source text in the host
  language. The host is a parameter of the model. The code it runs can read and change
  the state of the host (a counter, a random-number generator), so the host maps its
  state and the source text of the function body to how the call completes, once
  \<open>toString\<close> has been applied to a returned value, and to its next state; or to
  \<open>None\<close> when the call does not return.
\<close>

datatype completion =
    Returned "string option"  \<comment> \<open>the text of the result; \<open>None\<close> for \<open>null\<close> and \<open>undefined\<close>\<close>
  | ThrewError string         \<comment> \<open>an \<open>Error\<close> instance was thrown, with this message\<close>
  | ThrewOther                \<comment> \<open>something that is no \<open>Error\<close> instance was thrown\<close>

type_synonym 'hs host = "'hs \<Rightarrow> string \<Rightarrow> (completion \<times> 'hs) option"

definition stackOverflowMessage :: string where
  \<comment> \<open>the message of the \<open>RangeError\<close> of an exhausted call stack (the text is the
      engine's own; this is V8's)\<close>
  "stackOverflowMessage = ''Maximum call stack size exceeded''"

definition completionText :: "completion \<Rightarrow> string" where
  \<comment> \<open>\<open>result?.toString() ?? "ERR"\<close>, and the \<open>catch\<close> block\<close>
  "completionText c =
     (case c of
        Returned None \<Rightarrow> ''ERR''
      | Returned (Some text) \<Rightarrow> text
      | ThrewError msg \<Rightarrow> msg
      | ThrewOther \<Rightarrow> ''ERR'')"

subsection \<open>The component's state\<close>

type_synonym grid = "string \<rightharpoonup> string"
type_synonym cache = "string \<rightharpoonup> string"

record state =
  gridData :: grid
  calculationCache :: cache

definition initialState :: state where
  "initialState = \<lparr>gridData = Map.empty, calculationCache = Map.empty\<rparr>"

definition getValue :: "grid \<Rightarrow> int \<Rightarrow> int \<Rightarrow> string" where
  \<comment> \<open>\<open>gridData[getCellKey(row, col)] || ""\<close>\<close>
  "getValue g row col = (case g (getCellKey row col) of None \<Rightarrow> [] | Some v \<Rightarrow> v)"

definition setValue :: "state \<Rightarrow> int \<Rightarrow> int \<Rightarrow> string \<Rightarrow> state" where
  "setValue st row col v =
     \<lparr>gridData = (gridData st)(getCellKey row col \<mapsto> v), calculationCache = Map.empty\<rparr>"

definition startsWithEq :: "string \<Rightarrow> bool" where
  \<comment> \<open>\<open>startsWith("=")\<close>\<close>
  "startsWithEq s = (case s of [] \<Rightarrow> False | c # _ \<Rightarrow> c = CHR ''='')"

definition cached :: "cache \<Rightarrow> string \<Rightarrow> string option" where
  \<comment> \<open>\<open>if (calculationCache.current[cellKey])\<close>: an empty text counts as no entry\<close>
  "cached c k = (case c k of None \<Rightarrow> None | Some v \<Rightarrow> if v = [] then None else Some v)"

subsection \<open>Formula evaluation\<close>

text \<open>
  \<open>displayValue\<close> calls itself for every referenced formula cell, and nothing in the
  source bounds the nesting; the host's call stack does. \<open>displayValue n\<close> is the call
  with room for \<open>n\<close> more activations on the stack. With no room left the call raises
  the host's \<open>RangeError\<close> before doing anything. That error is not caught in the
  activation that raises it but in the calling one, whose \<open>try\<close> encloses the nested
  call: its \<open>catch\<close> caches and returns the error's message like that of any other
  error. Where exactly the host's stack runs out inside an activation is the host's
  matter; the model lets it run out at the entry of a call.

  A call that returns gives the display text, the cache and the host's state as it
  leaves them, and a flag that is no part of the program: whether a \<open>RangeError\<close> was
  caught during the call. The result is \<open>None\<close> when a call of the host does not
  return.

  The callback of \<open>replace\<close> either returns the replacement text (\<open>Inr\<close>) or throws
  (\<open>Inl\<close>, with the message of the error). A key that \<open>labelToCellKey\<close> writes is
  always read by \<open>split\<close> and \<open>Number\<close> (lemma \<open>labelToCellKey_read\<close>), so the branch
  of the callback where \<open>keyToCoords\<close> gives nothing is never taken.
\<close>

datatype 'hs outcome =
    RangeError
  | Displays string cache 'hs bool

type_synonym 'hs evaluator = "cache \<Rightarrow> 'hs \<Rightarrow> int \<Rightarrow> int \<Rightarrow> 'hs outcome option"

definition replacer ::
  "'hs evaluator \<Rightarrow> grid \<Rightarrow> string \<Rightarrow> string list \<Rightarrow> cache \<Rightarrow> 'hs \<Rightarrow> string
    \<Rightarrow> ((string + string) \<times> string list \<times> cache \<times> 'hs \<times> bool) option" where
  "replacer dv g cellKey referencedCells c s label =
     (case labelToCellKey label of
        None \<Rightarrow> Some (Inr ''0'', referencedCells, c, s, False)
      | Some key \<Rightarrow>
          if key \<in> set referencedCells \<or> key = cellKey
          then Some (Inl ''Circular reference'', referencedCells, c, s, False)
          else
            (case g key of
               None \<Rightarrow> Some (Inr ''0'', key # referencedCells, c, s, False)
             | Some val \<Rightarrow>
                 if val = [] then Some (Inr ''0'', key # referencedCells, c, s, False)
                 else if startsWithEq val then
                   (case keyToCoords key of
                      None \<Rightarrow> None
                    | Some (refRow, refCol) \<Rightarrow>
                        (case dv c s refRow refCol of
                           None \<Rightarrow> None
                         | Some RangeError \<Rightarrow>
                             Some (Inl stackOverflowMessage, key # referencedCells, c, s, True)
                         | Some (Displays text c' s' b) \<Rightarrow>
                             Some (Inr text, key # referencedCells, c', s', b)))
                 else Some (Inr (if isNaNNumber val then [CHR 0x22] @ val @ [CHR 0x22] else val),
                            key # referencedCells, c, s, False)))"

fun replaceAll ::
  "'hs evaluator \<Rightarrow> grid \<Rightarrow> string \<Rightarrow> string list \<Rightarrow> cache \<Rightarrow> 'hs \<Rightarrow> bool \<Rightarrow> string
    \<Rightarrow> piece list \<Rightarrow> ((string + string) \<times> string list \<times> cache \<times> 'hs \<times> bool) option" where
  \<comment> \<open>\<open>replace\<close> over the pieces of the text, from left to right: the set of referenced
      keys, the cache, the host's state and the text written so far go from one piece to
      the next; a throwing callback ends the scan\<close>
  "replaceAll dv g cellKey referencedCells c s b out [] = Some (Inr out, referencedCells, c, s, b)"
| "replaceAll dv g cellKey referencedCells c s b out (Plain ch # ps) =
     replaceAll dv g cellKey referencedCells c s b (out @ [ch]) ps"
| "replaceAll dv g cellKey referencedCells c s b out (Token label # ps) =
     (case replacer dv g cellKey referencedCells c s label of
        None \<Rightarrow> None
      | Some (Inl msg, referencedCells', c', s', b') \<Rightarrow>
          Some (Inl msg, referencedCells', c', s', b \<or> b')
      | Some (Inr text, referencedCells', c', s', b') \<Rightarrow>
          replaceAll dv g cellKey referencedCells' c' s' (b \<or> b') (out @ text) ps)"

definition functionBody :: "string \<Rightarrow> string" where
  \<comment> \<open>the template literal \<open>`return ${parsedExpr}`\<close>\<close>
  "functionBody parsedExpr = ''return '' @ parsedExpr"

primrec displayValue ::
  "nat \<Rightarrow> 'hs host \<Rightarrow> grid \<Rightarrow> cache \<Rightarrow> 'hs \<Rightarrow> int \<Rightarrow> int \<Rightarrow> 'hs outcome option" where
  "displayValue 0 h g c s row col = Some RangeError"
| "displayValue (Suc n) h g c s row col =
     (let cellKey = getCellKey row col
      in case cached c cellKey of
           Some text \<Rightarrow> Some (Displays text c s False)
         | None \<Rightarrow>
             (let raw = getValue g row col
              in if \<not> startsWithEq raw then Some (Displays raw (c(cellKey \<mapsto> raw)) s False)
                 else
                   (case replaceAll (displayValue n h g) g cellKey [] c s False []
                           (pieces (drop 1 raw)) of
                      None \<Rightarrow> None
                    | Some (Inl msg, referencedCells, c', s', b) \<Rightarrow>
                        Some (Displays msg (c'(cellKey \<mapsto> msg)) s' b)
                    | Some (Inr parsedExpr, referencedCells, c', s', b) \<Rightarrow>
                        (case h s' (functionBody parsedExpr) of
                           None \<Rightarrow> None
                         | Some (r, s'') \<Rightarrow>
                             Some (Displays (completionText r)
                                     (c'(cellKey \<mapsto> completionText r)) s'' b)))))"

definition shown :: "'hs outcome option \<Rightarrow> string option" where
  \<comment> \<open>the text of a call that returns\<close>
  "shown r = (case r of Some (Displays text c s b) \<Rightarrow> Some text | _ \<Rightarrow> None)"

definition displayText :: "nat \<Rightarrow> 'hs host \<Rightarrow> state \<Rightarrow> 'hs \<Rightarrow> int \<Rightarrow> int \<Rightarrow> string option" where
  \<comment> \<open>the text \<open>displayValue\<close> returns in a state\<close>
  "displayText n h st s row col =
     shown (displayValue n h (gridData st) (calculationCache st) s row col)"

subsection \<open>A fragment of the host language\<close>

text \<open>
  What the host does with a function body is known here for a small fragment only:
  \<open>return\<close>, a space, and decimal integer literals joined by \<open>+\<close>, \<open>-\<close> and \<open>*\<close>,
  with no white space, no sign, no leading zero (a legacy octal literal) and at most 15
  digits, every intermediate value staying of absolute value below \<open>2^53\<close>, where the
  host's Number arithmetic is exact. \<open>jsArithmetic\<close> is \<open>None\<close> outside the fragment.
  Properties that depend on a computed value are stated for every host that agrees with
  the fragment.
\<close>

definition literalOk :: "string \<Rightarrow> bool" where
  "literalOk s =
     (case s of
        [] \<Rightarrow> False
      | c # cs \<Rightarrow> list_all isDigit s \<and> length s \<le> 15 \<and> (if c = CHR ''0'' then cs = [] else True))"

fun lexArith :: "string \<Rightarrow> string \<times> (char \<times> string) list" where
  \<comment> \<open>the first literal, and every operator with the literal after it\<close>
  "lexArith [] = ([], [])"
| "lexArith (c # cs) =
     (case lexArith cs of
        (lit, rest) \<Rightarrow> if c \<in> set ''+-*'' then ([], (c, lit) # rest) else (c # lit, rest))"

definition safeInt :: "int \<Rightarrow> bool" where
  "safeInt v = (\<bar>v\<bar> < 2 ^ 53)"

fun evalOps :: "int \<Rightarrow> int \<Rightarrow> (char \<times> string) list \<Rightarrow> int option" where
  \<comment> \<open>\<open>acc\<close> is the sum of the terms read, \<open>term\<close> the product being read\<close>
  "evalOps acc term [] = (if safeInt (acc + term) then Some (acc + term) else None)"
| "evalOps acc term ((opr, lit) # rest) =
     (if \<not> literalOk lit then None
      else if opr = CHR ''*'' then
        (if safeInt (term * parseInt lit) then evalOps acc (term * parseInt lit) rest else None)
      else if \<not> safeInt (acc + term) then None
      else if opr = CHR ''+'' then evalOps (acc + term) (parseInt lit) rest
      else evalOps (acc + term) (- parseInt lit) rest)"

definition jsArithmetic :: "string \<Rightarrow> completion option" where
  "jsArithmetic body =
     (if take 7 body = ''return '' then
        (case lexArith (drop 7 body) of
           (lit, ops) \<Rightarrow>
             if literalOk lit then
               (case evalOps 0 (parseInt lit) ops of
                  None \<Rightarrow> None
                | Some v \<Rightarrow> Some (Returned (Some (numberToString v))))
             else None)
      else None)"

definition extendsArithmetic :: "'hs host \<Rightarrow> bool" where
  \<comment> \<open>the host does what the fragment says, wherever the fragment says something\<close>
  "extendsArithmetic h = (\<forall>s body r. jsArithmetic body = Some r \<longrightarrow> (\<exists>s'. h s body = Some (r, s')))"

definition textHost :: "(string \<Rightarrow> completion option) \<Rightarrow> 'hs host" where
  \<comment> \<open>a host whose calls depend on the source text alone and leave its state as it is\<close>
  "textHost f s body = map_option (\<lambda>r. (r, s)) (f body)"

definition arithmeticHost :: "string \<Rightarrow> completion option" where
  \<comment> \<open>a sample host: the fragment, and a syntax error for every other text\<close>
  "arithmeticHost body =
     (case jsArithmetic body of
        Some r \<Rightarrow> Some r
      | None \<Rightarrow> Some (ThrewError ''Unexpected token''))"

definition tickHost :: "nat host" where
  \<comment> \<open>a sample host with a state: a call returns the number of the calls made before
      it, whatever the text (as a body reading \<open>Math.random()\<close> or a counter of the global
      object gives another value at every call)\<close>
  "tickHost s body = Some (Returned (Some (digitsOf s)), Suc s)"



definition echoHost :: "string \<Rightarrow> completion option" where
  \<comment> \<open>a probe: a host that returns the source text it is given to run\<close>
  "echoHost body = Some (Returned (Some body))"


subsection \<open>The bounded grammar of the specification\<close>

text \<open>
  The specification's expression grammar is built from \<open>+\<close>, \<open>-\<close>, \<open>*\<close>, \<open>/\<close>,
  parentheses, numeric literals and quoted string literals. \<open>operatorSetText\<close> is the
  lexical part of it, which every expression of the grammar satisfies: outside quoted
  string literals the text has only digits, decimal points, the four operators,
  parentheses and spaces, and every quote is closed. The argument \<open>q\<close> is the quote of
  the string literal being read, if any.
\<close>

fun operatorSetText :: "char option \<Rightarrow> string \<Rightarrow> bool" where
  "operatorSetText q [] = (q = None)"
| "operatorSetText q (c # cs) =
     (case q of
        Some quote \<Rightarrow> operatorSetText (if c = quote then None else Some quote) cs
      | None \<Rightarrow>
          if c = CHR 0x22 \<or> c = CHR 0x27 then operatorSetText (Some c) cs
          else (isDigit c \<or> c \<in> set ''.+-*/() '') \<and> operatorSetText None cs)"

subsection \<open>What the grid alone determines\<close>

text \<open>
  The text the grid determines for a cell, on a host whose calls depend on the source
  text alone, is the one \<open>displayValue\<close> returns from an empty cache when the call stack
  is deep enough for no \<open>RangeError\<close> to be caught. \<open>pureDisplay\<close> is an auxiliary
  function for the proofs about it: the same scan with the cache left out and with
  \<open>None\<close> where the nesting exceeds \<open>n\<close>.
\<close>

definition uncached :: "(int \<Rightarrow> int \<Rightarrow> string option) \<Rightarrow> 'hs evaluator" where
  "uncached f c s row col = map_option (\<lambda>text. Displays text c s False) (f row col)"






subsection \<open>Sample states\<close>

definition mutualCycle :: state where
  \<comment> \<open>\<open>setRaw(A1, "=B1"); setRaw(B1, "=A1")\<close>\<close>
  "mutualCycle = setValue (setValue initialState 0 0 ''=B1'') 0 1 ''=A1''"



inductive_set unwindTexts :: "'hs host \<Rightarrow> string set" for h :: "'hs host" where
  \<comment> \<open>the texts that come back up a chain of activations ended by an exhausted stack,
      each activation giving the text of the one below to the host\<close>
  overflow: "stackOverflowMessage \<in> unwindTexts h"
| garbled: "t \<in> unwindTexts h \<Longrightarrow> h s (functionBody t) = Some (r, s') \<Longrightarrow> completionText r \<in> unwindTexts h"

section \<open>Properties\<close>

subsection \<open>Decimal text and column letters\<close>

lemma charCodeAt_fromCharCode: "0 \<le> n \<Longrightarrow> n < 256 \<Longrightarrow> charCodeAt (fromCharCode n) = n"
  by (simp add: charCodeAt_def fromCharCode_def)

lemma isDigit_not_isUpper: "isDigit c \<Longrightarrow> \<not> isUpper c"
  by (simp add: isDigit_def isUpper_def)

lemma digitsOf_digits: "list_all isDigit (digitsOf n)"
proof (induction n rule: digitsOf.induct)
  case (1 n)
  show ?case
  proof (cases "n < 10")
    case True
    then show ?thesis
      by (subst digitsOf.simps) (simp add: isDigit_def charCodeAt_fromCharCode)
  next
    case False
    have "n mod 10 < 10" by simp
    then have "isDigit (fromCharCode (48 + int (n mod 10)))"
      by (simp add: isDigit_def charCodeAt_fromCharCode)
    with False 1 show ?thesis
      by (subst digitsOf.simps) simp
  qed
qed

lemma digitsOf_nonempty: "digitsOf n \<noteq> []"
  by (subst digitsOf.simps) simp

lemma decimalValue_append: "decimalValue (xs @ [c]) = decimalValue xs * 10 + nat (charCodeAt c - 48)"
  by (simp add: decimalValue_def)

lemma decimalValue_digitsOf: "decimalValue (digitsOf n) = n"
proof (induction n rule: digitsOf.induct)
  case (1 n)
  show ?case
  proof (cases "n < 10")
    case True
    then show ?thesis
      by (subst digitsOf.simps) (simp add: decimalValue_def charCodeAt_fromCharCode)
  next
    case False
    have "n mod 10 < 10" by simp
    then have c: "charCodeAt (fromCharCode (48 + int (n mod 10))) = 48 + int (n mod 10)"
      by (simp add: charCodeAt_fromCharCode)
    have "decimalValue (digitsOf n) = decimalValue (digitsOf (n div 10)) * 10 + n mod 10"
      using False by (subst digitsOf.simps) (simp add: decimalValue_append c)
    also have "\<dots> = (n div 10) * 10 + n mod 10"
      using False 1 by simp
    also have "\<dots> = n" by simp
    finally show ?thesis .
  qed
qed

lemma roundNat_small: "a \<le> 2 ^ 53 \<Longrightarrow> roundNat a = a"
  by (simp add: roundNat_def)

lemma roundDouble_small: "\<bar>n\<bar> \<le> 2 ^ 53 \<Longrightarrow> roundDouble n = n"
proof -
  assume a: "\<bar>n\<bar> \<le> 2 ^ 53"
  have "nat \<bar>n\<bar> \<le> 2 ^ 53" using a by (simp add: nat_le_iff)
  then have "roundNat (nat \<bar>n\<bar>) = nat \<bar>n\<bar>" by (rule roundNat_small)
  then show ?thesis by (cases "n < 0") (simp_all add: roundDouble_def)
qed

lemma parseInt_digitsOf: "n \<le> 2 ^ 53 \<Longrightarrow> parseInt (digitsOf n) = int n"
  by (simp add: parseInt_def decimalValue_digitsOf roundNat_small)

lemma numberToString_small:
  "0 \<le> n \<Longrightarrow> n \<le> 2 ^ 53 \<Longrightarrow> numberToString n = digitsOf (nat n)"
proof -
  assume "0 \<le> n" "n \<le> 2 ^ 53"
  then have "nat n \<le> 2 ^ 53" by (simp add: nat_le_iff)
  with \<open>0 \<le> n\<close> show ?thesis by (simp add: numberToString_def unsignedText_def)
qed

lemma colLoop_step:
  "0 \<le> c \<Longrightarrow> colLoop c acc =
     (if c < 26 then fromCharCode (65 + c mod 26) # acc
      else colLoop (c div 26 - 1) (fromCharCode (65 + c mod 26) # acc))"
  by (subst colLoop.simps) (auto simp: Let_def)

lemma colLoop_acc: "0 \<le> c \<Longrightarrow> colLoop c acc = colLoop c [] @ acc"
proof (induction "nat c" arbitrary: c acc rule: less_induct)
  case less
  show ?case
  proof (cases "c < 26")
    case True
    with less.prems show ?thesis by (simp add: colLoop_step)
  next
    case False
    let ?d = "c div 26 - 1" and ?ch = "fromCharCode (65 + c mod 26)"
    from False less.prems have d: "0 \<le> ?d" "nat ?d < nat c" by auto
    have "colLoop c acc = colLoop ?d (?ch # acc)"
      using False less.prems by (simp add: colLoop_step)
    also have "\<dots> = colLoop ?d [] @ ?ch # acc"
      by (rule less.hyps [OF d(2) d(1)])
    also have "\<dots> = (colLoop ?d [] @ [?ch]) @ acc" by simp
    also have "colLoop ?d [] @ [?ch] = colLoop ?d [?ch]"
      by (rule less.hyps [OF d(2) d(1), symmetric])
    also have "colLoop ?d [?ch] = colLoop c []"
      using False less.prems by (simp add: colLoop_step)
    finally show ?thesis .
  qed
qed

lemma colLoop_unfold:
  "0 \<le> c \<Longrightarrow> colLoop c [] =
     (if c < 26 then [fromCharCode (65 + c mod 26)]
      else colLoop (c div 26 - 1) [] @ [fromCharCode (65 + c mod 26)])"
  using colLoop_acc [of "c div 26 - 1" "[fromCharCode (65 + c mod 26)]"]
  by (auto simp: colLoop_step)

lemma isUpper_letter: "isUpper (fromCharCode (65 + c mod 26))"
proof -
  have "0 \<le> c mod 26" "c mod 26 < 26" by simp_all
  then show ?thesis by (simp add: isUpper_def charCodeAt_fromCharCode)
qed

lemma charCodeAt_letter: "charCodeAt (fromCharCode (65 + c mod 26)) = 65 + c mod 26"
proof -
  have "0 \<le> c mod 26" "c mod 26 < 26" by simp_all
  then show ?thesis by (simp add: charCodeAt_fromCharCode)
qed

lemma colOfLetters_snoc:
  "colOfLetters (xs @ [ch]) =
     roundDouble (roundDouble (colOfLetters xs * 26) + (charCodeAt ch - 65 + 1))"
  by (simp add: colOfLetters_def)

lemma colLoop_props:
  "0 \<le> c \<Longrightarrow> c < 2 ^ 53 \<Longrightarrow>
     colLoop c [] \<noteq> [] \<and> list_all isUpper (colLoop c []) \<and> colOfLetters (colLoop c []) = c + 1"
proof (induction "nat c" arbitrary: c rule: less_induct)
  case less
  show ?case
  proof (cases "c < 26")
    case True
    with less.prems have "colOfLetters [fromCharCode (65 + c)] = c + 1"
      using colOfLetters_snoc [of "[]" "fromCharCode (65 + c)"]
      by (simp add: colOfLetters_def charCodeAt_fromCharCode roundDouble_small)
    with True less.prems show ?thesis
      by (simp add: colLoop_unfold isUpper_def charCodeAt_fromCharCode)
  next
    case False
    let ?d = "c div 26 - 1"
    from False less.prems have d: "0 \<le> ?d" "nat ?d < nat c" "?d < 2 ^ 53" by auto
    from less.hyps [OF d(2) d(1) d(3)]
    have ih: "list_all isUpper (colLoop ?d [])" "colOfLetters (colLoop ?d []) = ?d + 1" by simp_all
    have m: "(c div 26) * 26 + c mod 26 = c" by simp
    have b1: "\<bar>(c div 26) * 26\<bar> \<le> 2 ^ 53" using less.prems m by simp
    have b2: "\<bar>c + 1\<bar> \<le> 2 ^ 53" using less.prems by simp
    have "colOfLetters (colLoop c []) =
        roundDouble (roundDouble ((?d + 1) * 26) + (c mod 26 + 1))"
      using False less.prems ih(2) by (simp add: colLoop_unfold colOfLetters_snoc charCodeAt_letter)
    also have "\<dots> = roundDouble ((c div 26) * 26 + (c mod 26 + 1))"
      using b1 by (simp add: roundDouble_small)
    also have "\<dots> = c + 1" using b2 m by (simp add: roundDouble_small)
    finally have "colOfLetters (colLoop c []) = c + 1" .
    moreover have "list_all isUpper (colLoop c [])" "colLoop c [] \<noteq> []"
      using False less.prems ih(1) by (simp_all add: colLoop_unfold isUpper_letter)
    ultimately show ?thesis by simp
  qed
qed

lemma takeWhile_run:
  "list_all P xs \<Longrightarrow> ys \<noteq> [] \<Longrightarrow> \<not> P (hd ys) \<Longrightarrow> takeWhile P (xs @ ys) = xs \<and> dropWhile P (xs @ ys) = ys"
  by (induction xs) (auto simp: neq_Nil_conv)

lemma hd_digitsOf: "isDigit (hd (digitsOf n))"
  using digitsOf_digits [of n] digitsOf_nonempty [of n]
  by (cases "digitsOf n") simp_all

lemma labelToCellKey_shape:
  assumes "letters \<noteq> []" "list_all isUpper letters" "digits \<noteq> []" "list_all isDigit digits"
  shows "labelToCellKey (letters @ digits) =
    Some (getCellKey (roundDouble (parseInt digits - 1)) (roundDouble (colOfLetters letters - 1)))"
proof -
  have "\<not> isUpper (hd digits)"
    using assms(3,4) by (cases digits) (auto dest: isDigit_not_isUpper)
  then have "takeWhile isUpper (letters @ digits) = letters" "dropWhile isUpper (letters @ digits) = digits"
    using takeWhile_run [of isUpper letters digits] assms by simp_all
  then show ?thesis using assms by (simp add: labelToCellKey_def getCellKey_def)
qed

lemma labelToCellKey_cellKeyToLabel:
  assumes "0 \<le> row" "row < 2 ^ 53" "0 \<le> col" "col < 2 ^ 53"
  shows "labelToCellKey (cellKeyToLabel row col) = Some (getCellKey row col)"
proof -
  let ?l = "colLoop col []" and ?d = "digitsOf (nat (row + 1))"
  have l: "?l \<noteq> []" "list_all isUpper ?l" "colOfLetters ?l = col + 1"
    using colLoop_props [OF assms(3,4)] by simp_all
  have r1: "roundDouble (row + 1) = row + 1" using assms by (simp add: roundDouble_small)
  have n1: "numberToString (row + 1) = ?d" using assms by (simp add: numberToString_small)
  have "nat (row + 1) \<le> 2 ^ 53" using assms by (simp add: nat_le_iff)
  then have p: "parseInt ?d = row + 1" using assms(1) by (simp add: parseInt_digitsOf)
  have "cellKeyToLabel row col = ?l @ ?d" by (simp add: cellKeyToLabel_def r1 n1)
  moreover have "labelToCellKey (?l @ ?d) =
      Some (getCellKey (roundDouble (parseInt ?d - 1)) (roundDouble (colOfLetters ?l - 1)))"
    using l digitsOf_nonempty digitsOf_digits by (intro labelToCellKey_shape) simp_all
  moreover have "roundDouble (parseInt ?d - 1) = row" "roundDouble (colOfLetters ?l - 1) = col"
    using assms p l(3) by (simp_all add: roundDouble_small)
  ultimately show ?thesis by simp
qed

subsection \<open>Keys, labels and reference tokens\<close>

lemma splitComma_Cons:
  "splitComma (c # s) = (if c = CHR '','' then [] # splitComma s
     else (case splitComma s of [] \<Rightarrow> [[c]] | p # ps \<Rightarrow> (c # p) # ps))"
  by (simp add: splitComma_def)

lemma splitComma_Nil: "splitComma [] = [[]]"
  by (simp add: splitComma_def)

lemma splitComma_no_comma: "CHR '','' \<notin> set s \<Longrightarrow> splitComma s = [s]"
  by (induction s) (auto simp: splitComma_Cons splitComma_Nil)

lemma splitComma_append:
  "CHR '','' \<notin> set a \<Longrightarrow> splitComma (a @ CHR '','' # b) = a # splitComma b"
  by (induction a) (auto simp: splitComma_Cons)

lemma isDigit_not_special:
  "isDigit c \<Longrightarrow> c \<noteq> CHR '','' \<and> c \<noteq> CHR ''-'' \<and> c \<noteq> CHR ''e'' \<and> c \<noteq> CHR ''.''"
  by (auto simp: isDigit_def charCodeAt_def)

lemma digits_no: "list_all isDigit s \<Longrightarrow> CHR '','' \<notin> set s \<and> CHR ''e'' \<notin> set s"
  using isDigit_not_special by (auto simp: list_all_iff)

lemma exponentForm_no_comma: "CHR '','' \<notin> set (exponentForm c)"
proof -
  have n: "CHR '','' \<notin> set (digitsOf n)" for n
    using digits_no [OF digitsOf_digits] by blast
  obtain d ds where m: "digitsOf (c div 10 ^ trailingZeros c) = d # ds"
    using digitsOf_nonempty by (cases "digitsOf (c div 10 ^ trailingZeros c)") auto
  from n [of "c div 10 ^ trailingZeros c"] have "d \<noteq> CHR '',''" "CHR '','' \<notin> set ds"
    by (auto simp: m)
  then show ?thesis using n by (auto simp: exponentForm_def m)
qed

lemma numberToString_no_comma: "CHR '','' \<notin> set (numberToString n)"
proof -
  have "CHR '','' \<notin> set (digitsOf n)" for n
    using digits_no [OF digitsOf_digits] by blast
  then have "CHR '','' \<notin> set (unsignedText a)" for a
    by (simp add: unsignedText_def exponentForm_no_comma)
  then show ?thesis by (simp add: numberToString_def)
qed

lemma unsignedValue_digits:
  assumes "s \<noteq> []" "list_all isDigit s"
  shows "unsignedValue s = Some (roundNat (decimalValue s))"
proof -
  have "\<forall>c\<in>set s. c \<noteq> CHR ''e''" using digits_no [OF assms(2)] by auto
  then have e: "takeWhile (\<lambda>c. c \<noteq> CHR ''e'') s = s" "dropWhile (\<lambda>c. c \<noteq> CHR ''e'') s = []"
    by (simp_all add: takeWhile_eq_all_conv)
  have d: "takeWhile isDigit s = s" "dropWhile isDigit s = []"
    using assms(2) by (simp_all add: takeWhile_eq_all_conv list_all_iff)
  show ?thesis by (simp add: unsignedValue_def e d assms(1))
qed






lemma toNumber_numberToString: "\<bar>n\<bar> \<le> 2 ^ 53 \<Longrightarrow> toNumber (numberToString n) = Some n"
proof (cases "n < 0")
  case True
  assume "\<bar>n\<bar> \<le> 2 ^ 53"
  with True have "nat (- n) \<le> 2 ^ 53" by (simp add: nat_le_iff)
  with True show ?thesis
    by (simp add: toNumber_def numberToString_def unsignedText_def unsignedValue_digits
        digitsOf_nonempty digitsOf_digits decimalValue_digitsOf roundNat_small)
next
  case False
  assume "\<bar>n\<bar> \<le> 2 ^ 53"
  with False have b: "nat n \<le> 2 ^ 53" by (simp add: nat_le_iff)
  obtain d t where d: "digitsOf (nat n) = d # t" "isDigit d"
    using digitsOf_nonempty [of "nat n"] hd_digitsOf [of "nat n"] by (cases "digitsOf (nat n)") auto
  then have "d \<noteq> CHR ''-''" using isDigit_not_special by blast
  moreover have "roundNat (nat n) = nat n" using b by (rule roundNat_small)
  then have "unsignedValue (digitsOf (nat n)) = Some (nat n)"
    by (simp add: unsignedValue_digits digitsOf_nonempty digitsOf_digits decimalValue_digitsOf)
  then have "unsignedValue (d # t) = Some (nat n)" by (simp only: d)
  ultimately show ?thesis using False b d
    by (simp add: toNumber_def numberToString_def unsignedText_def)
qed

lemma keyToCoords_getCellKey:
  "\<bar>row\<bar> \<le> 2 ^ 53 \<Longrightarrow> \<bar>col\<bar> \<le> 2 ^ 53 \<Longrightarrow> keyToCoords (getCellKey row col) = Some (row, col)"
  by (simp add: keyToCoords_def getCellKey_def splitComma_append numberToString_no_comma
      splitComma_no_comma toNumber_numberToString)

lemma matchLabel_SomeD:
  assumes "matchLabel s = Some (label, rest)"
  shows "\<exists>letters digits. label = letters @ digits \<and> letters \<noteq> [] \<and> list_all isUpper letters
           \<and> digits \<noteq> [] \<and> list_all isDigit digits"
proof -
  let ?l = "takeWhile isUpper s" and ?d = "takeWhile isDigit (dropWhile isUpper s)"
  from assms have "label = ?l @ ?d" "?l \<noteq> []" "?d \<noteq> []"
    by (auto simp: matchLabel_def Let_def split: if_splits)
  moreover have "list_all isUpper ?l" "list_all isDigit ?d"
    by (auto simp: list_all_iff dest: set_takeWhileD)
  ultimately show ?thesis by blast
qed

lemma pieces_Token:
  "Token label \<in> set (pieces expr) \<Longrightarrow> \<exists>s rest. matchLabel s = Some (label, rest)"
proof (induction expr rule: pieces.induct)
  case 1
  then show ?case by (simp add: pieces.simps)
next
  case (2 c cs)
  then show ?case by (auto simp: pieces.simps split: option.splits)
qed



lemma fromCharCode_digits:
  "fromCharCode 48 = CHR ''0''" "fromCharCode 49 = CHR ''1''" "fromCharCode 50 = CHR ''2''"
  "fromCharCode 51 = CHR ''3''" "fromCharCode 52 = CHR ''4''" "fromCharCode 53 = CHR ''5''"
  "fromCharCode 54 = CHR ''6''" "fromCharCode 55 = CHR ''7''" "fromCharCode 56 = CHR ''8''"
  "fromCharCode 57 = CHR ''9''"
  by (simp_all add: fromCharCode_def) code_simp+

lemma fromCharCode_AB: "fromCharCode 65 = CHR ''A''" "fromCharCode 66 = CHR ''B''"
  by (simp_all add: fromCharCode_def) code_simp+

lemmas decimal_simps = numberToString_def unsignedText_def digitsOf.simps fromCharCode_digits
  parseInt_def decimalValue_def roundDouble_def roundNat_def
lemmas char_simps = isUpper_def isDigit_def charCodeAt_def
lemmas key_simps = getCellKey_def labelToCellKey_def colOfLetters_def decimal_simps char_simps


lemma roundDouble_boundary: "roundDouble 9007199254740993 = 9007199254740992"
  by (simp add: roundDouble_def roundNat_def bitLength.simps Let_def)

text \<open>
  C4. For every coordinate with row and column from \<open>0\<close> to \<open>2^53 - 1\<close>, where the
  host's arithmetic is exact, decoding the label that \<open>cellKeyToLabel\<close> writes succeeds
  and gives the key of exactly that coordinate, from which \<open>split\<close> and \<open>Number\<close> read
  the row and the column back.
\<close>

theorem label_roundtrip:
  "0 \<le> row \<Longrightarrow> row < 2 ^ 53 \<Longrightarrow> 0 \<le> col \<Longrightarrow> col < 2 ^ 53 \<Longrightarrow>
     labelToCellKey (cellKeyToLabel row col) = Some (getCellKey row col) \<and>
     keyToCoords (getCellKey row col) = Some (row, col)"
  by (simp add: labelToCellKey_cellKeyToLabel keyToCoords_getCellKey)

theorem label_roundtrip_witness:
  "cellKeyToLabel 6 27 = ''AB7'' \<and> labelToCellKey (cellKeyToLabel 6 27) = Some (getCellKey 6 27) \<and>
   keyToCoords (getCellKey 6 27) = Some (6, 27)"
proof -
  have "cellKeyToLabel 6 27 = ''AB7''"
    by (simp add: cellKeyToLabel_def colLoop.simps fromCharCode_AB decimal_simps)
  then show ?thesis using label_roundtrip [of 6 27] by simp
qed

theorem label_roundtrip_counterexample:
  "cellKeyToLabel 9007199254740992 0 = ''A9007199254740992'' \<and>
   labelToCellKey ''A9007199254740992'' = Some ''9007199254740991,0'' \<and>
   getCellKey 9007199254740992 0 = ''9007199254740992,0'' \<and>
   labelToCellKey (cellKeyToLabel 9007199254740992 0) \<noteq> Some (getCellKey 9007199254740992 0)"
proof -
  have a: "cellKeyToLabel 9007199254740992 0 = ''A9007199254740992''"
    by (simp add: cellKeyToLabel_def roundDouble_boundary colLoop.simps fromCharCode_AB
        numberToString_def unsignedText_def digitsOf.simps fromCharCode_digits)
  have b: "labelToCellKey ''A9007199254740992'' = Some ''9007199254740991,0''"
    by (simp add: key_simps)
  have c: "getCellKey 9007199254740992 0 = ''9007199254740992,0''"
    by (simp add: key_simps)
  show ?thesis by (simp add: a b c)
qed

text \<open>
  C9. \<open>labelToCellKey\<close> accepts every label whose digit run is \<open>0\<close> and gives it the
  key of row \<open>-1\<close>, a coordinate with a negative row: \<open>A0\<close> decodes to \<open>-1,0\<close>, row
  \<open>-1\<close>, column \<open>0\<close>.
\<close>

theorem decode_row_zero:
  "(letters \<noteq> [] \<longrightarrow> list_all isUpper letters \<longrightarrow>
      labelToCellKey (letters @ ''0'') =
        Some (getCellKey (- 1) (roundDouble (colOfLetters letters - 1)))) \<and>
   labelToCellKey ''A0'' = Some (getCellKey (- 1) 0) \<and> getCellKey (- 1) 0 = ''-1,0'' \<and>
   keyToCoords ''-1,0'' = Some (- 1, 0)"
proof (intro conjI impI)
  assume "letters \<noteq> []" "list_all isUpper letters"
  then have "labelToCellKey (letters @ ''0'') =
      Some (getCellKey (roundDouble (parseInt ''0'' - 1)) (roundDouble (colOfLetters letters - 1)))"
    by (intro labelToCellKey_shape) (simp_all add: char_simps)
  moreover have "roundDouble (parseInt ''0'' - 1) = - 1"
    by (simp add: decimal_simps char_simps)
  ultimately show "labelToCellKey (letters @ ''0'') =
      Some (getCellKey (- 1) (roundDouble (colOfLetters letters - 1)))" by simp
next
  show k: "getCellKey (- 1) 0 = ''-1,0''" by (simp add: key_simps)
  have "labelToCellKey ''A0'' = Some ''-1,0''" by (simp add: key_simps)
  then show "labelToCellKey ''A0'' = Some (getCellKey (- 1) 0)" by (simp only: k)
  show "keyToCoords ''-1,0'' = Some (- 1, 0)"
    using keyToCoords_getCellKey [of "- 1" 0] by (simp add: k)
qed

theorem decode_row_zero_witness:
  "''AB'' \<noteq> [] \<and> list_all isUpper ''AB'' \<and>
   labelToCellKey (''AB'' @ ''0'') = Some (getCellKey (- 1) (roundDouble (colOfLetters ''AB'' - 1))) \<and>
   getCellKey (- 1) (roundDouble (colOfLetters ''AB'' - 1)) = ''-1,27''"
proof -
  have a: "''AB'' \<noteq> []" "list_all isUpper ''AB''" by (simp_all add: char_simps)
  have "getCellKey (- 1) (roundDouble (colOfLetters ''AB'' - 1)) = ''-1,27''"
    by (simp add: key_simps)
  then show ?thesis
    using decode_row_zero [THEN conjunct1, rule_format, OF a] a by simp
qed

text \<open>
  C10. Every token the scan of a formula matches with \<open>[A-Z]+\d+\<close> is decoded by
  \<open>labelToCellKey\<close>: the callback's branch for a token that fails to decode is never
  taken.
\<close>

theorem scanned_token_decodes:
  "Token label \<in> set (pieces expr) \<Longrightarrow> \<exists>key. labelToCellKey label = Some key"
proof -
  assume "Token label \<in> set (pieces expr)"
  then obtain s rest where "matchLabel s = Some (label, rest)"
    using pieces_Token by blast
  then obtain letters digits where "label = letters @ digits" "letters \<noteq> []"
      "list_all isUpper letters" "digits \<noteq> []" "list_all isDigit digits"
    using matchLabel_SomeD by blast
  then show ?thesis using labelToCellKey_shape by blast
qed

theorem scanned_token_decodes_witness:
  "Token ''B22'' \<in> set (pieces ''A1+B22'') \<and> (\<exists>key. labelToCellKey ''B22'' = Some key)"
proof -
  have "Token ''B22'' \<in> set (pieces ''A1+B22'')"
    by (simp add: pieces.simps matchLabel_def char_simps)
  then show ?thesis using scanned_token_decodes [of "''B22''" "''A1+B22''"] by simp
qed

subsection \<open>Evaluating sample formulas\<close>

lemmas state_simps = Let_def setValue_def initialState_def getValue_def cached_def startsWithEq_def

lemma extendsArithmeticD:
  "extendsArithmetic h \<Longrightarrow> jsArithmetic body = Some r \<Longrightarrow> \<exists>s'. h s body = Some (r, s')"
  by (simp add: extendsArithmetic_def)

lemma extendsArithmetic_arithmeticHost: "extendsArithmetic (textHost arithmeticHost)"
  by (simp add: extendsArithmetic_def arithmeticHost_def textHost_def)

lemma key_A1: "getCellKey 0 0 = ''0,0''" "labelToCellKey ''A1'' = Some ''0,0''"
  by (simp_all add: key_simps)

lemma key_B1: "getCellKey 0 1 = ''0,1''" "labelToCellKey ''B1'' = Some ''0,1''"
  by (simp_all add: key_simps)

lemma key_C1: "getCellKey 0 2 = ''0,2''" "labelToCellKey ''C1'' = Some ''0,2''"
  by (simp_all add: key_simps)

lemma isNaNNumber_samples: "\<not> isNaNNumber ''5''" "\<not> isNaNNumber ''1''" "\<not> isNaNNumber ''2''"
  by (simp_all add: isNaNNumber_def trimSpace_def isSpace_def nonDecimal_def unsignedDecimal_def
      optSign_def exponentPart_def radixDigits_def char_simps)

lemma evalArith_simps:
  "numberToString 0 = ''0''" "numberToString 1 = ''1''" "numberToString 2 = ''2''"
  "numberToString 3 = ''3''" "numberToString 6 = ''6''"
  "parseInt ''0'' = 0" "parseInt ''1'' = 1" "parseInt ''2'' = 2" "parseInt ''5'' = 5"
  by (simp_all add: decimal_simps char_simps)

lemma jsArithmetic_samples:
  "jsArithmetic ''return 5+1'' = Some (Returned (Some ''6''))"
  "jsArithmetic ''return 1'' = Some (Returned (Some ''1''))"
  "jsArithmetic ''return 2'' = Some (Returned (Some ''2''))"
  "jsArithmetic ''return 0+1'' = Some (Returned (Some ''1''))"
  "jsArithmetic ''return 0+0'' = Some (Returned (Some ''0''))"
  "jsArithmetic ''return 1+1'' = Some (Returned (Some ''2''))"
  by (simp_all add: jsArithmetic_def literalOk_def safeInt_def evalArith_simps char_simps)

lemma numeric_literal_substituted:
  assumes "labelToCellKey label = Some key" "key \<notin> set referencedCells" "key \<noteq> cellKey"
    and "g key = Some val" "val \<noteq> []" "\<not> startsWithEq val" "\<not> isNaNNumber val"
  shows "replacer dv g cellKey referencedCells c s label =
    Some (Inr val, key # referencedCells, c, s, False)"
  using assms by (simp add: replacer_def)

lemma pieces_samples:
  "pieces ''A1'' = [Token ''A1'']"
  "pieces ''B1'' = [Token ''B1'']"
  "pieces ''C1'' = [Token ''C1'']"
  "pieces ''1+1'' = map Plain ''1+1''"
  "pieces ''A1+1'' = [Token ''A1'', Plain CHR ''+'', Plain CHR ''1'']"
  "pieces ''A1+A1'' = [Token ''A1'', Plain CHR ''+'', Token ''A1'']"
  "pieces ''C1+C1'' = [Token ''C1'', Plain CHR ''+'', Token ''C1'']"
  "pieces ''ZZZ99999+1'' = [Token ''ZZZ99999'', Plain CHR ''+'', Plain CHR ''1'']"
  "pieces ''alert(1)'' = map Plain ''alert(1)''"
  "pieces ''(()=>{for(;;){}})()'' = map Plain ''(()=>{for(;;){}})()''"
  by (simp_all add: pieces.simps matchLabel_def Let_def char_simps)

text \<open>
  C7. With \<open>5\<close> in A1 and \<open>=A1+1\<close> in B1, \<open>displayValue\<close> of B1 returns \<open>6\<close> on every
  host that agrees with the arithmetic fragment; and a referenced cell whose content is
  no formula and reads as a number is substituted by its own text.
\<close>

theorem numeric_reference_arithmetic:
  "(extendsArithmetic h \<longrightarrow>
      displayText (Suc n) h (setValue (setValue initialState 0 0 ''5'') 0 1 ''=A1+1'') s 0 1 = Some ''6'') \<and>
   (labelToCellKey label = Some key \<longrightarrow> key \<notin> set referencedCells \<longrightarrow> key \<noteq> cellKey \<longrightarrow>
      g key = Some val \<longrightarrow> val \<noteq> [] \<longrightarrow> \<not> startsWithEq val \<longrightarrow> \<not> isNaNNumber val \<longrightarrow>
      replacer dv g cellKey referencedCells c s' label =
        Some (Inr val, key # referencedCells, c, s', False))"
proof (intro conjI impI)
  assume h: "extendsArithmetic h"
  obtain s2 where "h s (functionBody ''5+1'') = Some (Returned (Some ''6''), s2)"
    using extendsArithmeticD [OF h jsArithmetic_samples(1), of s] by (auto simp: functionBody_def)
  then show "displayText (Suc n) h (setValue (setValue initialState 0 0 ''5'') 0 1 ''=A1+1'') s 0 1
      = Some ''6''"
    by (simp add: displayText_def shown_def state_simps key_A1 key_B1 pieces_samples replacer_def
        isNaNNumber_samples completionText_def)
next
  assume "labelToCellKey label = Some key" "key \<notin> set referencedCells" "key \<noteq> cellKey"
    "g key = Some val" "val \<noteq> []" "\<not> startsWithEq val" "\<not> isNaNNumber val"
  then show "replacer dv g cellKey referencedCells c s' label =
      Some (Inr val, key # referencedCells, c, s', False)"
    by (rule numeric_literal_substituted)
qed

theorem numeric_reference_arithmetic_witness:
  "extendsArithmetic (textHost arithmeticHost :: unit host) \<and>
   displayText 1 (textHost arithmeticHost) (setValue (setValue initialState 0 0 ''5'') 0 1 ''=A1+1'')
     () 0 1 = Some ''6'' \<and>
   replacer (displayValue 0 (textHost arithmeticHost) [''0,0'' \<mapsto> ''5'']) [''0,0'' \<mapsto> ''5''] ''0,1'' []
     Map.empty () ''A1'' = Some (Inr ''5'', [''0,0''], Map.empty, (), False)"
proof -
  have "labelToCellKey ''A1'' = Some ''0,0''" "''0,0'' \<notin> set ([] :: string list)" "''0,0'' \<noteq> ''0,1''"
    "[''0,0'' \<mapsto> ''5''] ''0,0'' = Some ''5''" "''5'' \<noteq> []" "\<not> startsWithEq ''5''" "\<not> isNaNNumber ''5''"
    by (simp_all add: key_A1 startsWithEq_def isNaNNumber_samples)
  then show ?thesis
    using numeric_reference_arithmetic [of "textHost arithmeticHost :: unit host" 0 "()" "''A1''"
        "''0,0''" "[]" "''0,1''" "[''0,0'' \<mapsto> ''5'']" "''5''"
        "displayValue 0 (textHost arithmeticHost) [''0,0'' \<mapsto> ''5'']" Map.empty "()"]
      extendsArithmetic_arithmeticHost [where 'a = unit]
    by simp
qed

subsection \<open>The scan and the circular-reference check\<close>

lemma replacer_circular:
  "labelToCellKey label = Some key \<Longrightarrow> key \<in> set referencedCells \<or> key = cellKey \<Longrightarrow>
     replacer dv g cellKey referencedCells c s label =
       Some (Inl ''Circular reference'', referencedCells, c, s, False)"
  by (auto simp: replacer_def)

lemma replacer_Inr_seen:
  "replacer dv g cellKey seen c s label = Some (Inr tx, seen', rest) \<Longrightarrow>
     (labelToCellKey label = None \<and> seen' = seen) \<or>
     (labelToCellKey label = Some (hd seen') \<and> seen' = hd seen' # seen)"
  by (auto simp: replacer_def split: option.splits if_splits prod.splits outcome.splits)

lemma replaceAll_append:
  "replaceAll dv g cellKey seen c s b out (pre @ post) =
     (case replaceAll dv g cellKey seen c s b out pre of
        None \<Rightarrow> None
      | Some (Inl msg, rest) \<Rightarrow> Some (Inl msg, rest)
      | Some (Inr out', seen', c', s', b') \<Rightarrow> replaceAll dv g cellKey seen' c' s' b' out' post)"
proof (induction pre arbitrary: seen c s b out)
  case Nil
  then show ?case by simp
next
  case (Cons p pre)
  show ?case
  proof (cases p)
    case (Plain ch)
    then show ?thesis using Cons.IH by simp
  next
    case (Token label)
    then show ?thesis using Cons.IH
      by (simp split: option.splits sum.splits prod.splits)
  qed
qed

lemma replaceAll_seen:
  "replaceAll dv g cellKey seen c s b out ps = Some (Inr out', seen', rest) \<Longrightarrow>
     set seen' = set seen \<union> {key. \<exists>label. Token label \<in> set ps \<and> labelToCellKey label = Some key}"
proof (induction ps arbitrary: seen c s b out)
  case Nil
  then show ?case by simp
next
  case (Cons p ps)
  show ?case
  proof (cases p)
    case (Plain ch)
    then show ?thesis using Cons by auto
  next
    case (Token label)
    with Cons.prems obtain tx s1 c1 hs1 b1 where
      r: "replacer dv g cellKey seen c s label = Some (Inr tx, s1, c1, hs1, b1)" and
      rest: "replaceAll dv g cellKey s1 c1 hs1 (b \<or> b1) (out @ tx) ps = Some (Inr out', seen', rest)"
      by (auto split: option.splits sum.splits prod.splits)
    from Cons.IH [OF rest] have
      "set seen' = set s1 \<union> {key. \<exists>label. Token label \<in> set ps \<and> labelToCellKey label = Some key}" .
    moreover from replacer_Inr_seen [OF r] have
      "set s1 = set seen \<union> {key. labelToCellKey label = Some key}"
      by (cases s1) auto
    ultimately show ?thesis using Token by auto
  qed
qed

lemma displayValue_formula:
  assumes "cached c (getCellKey row col) = None" "g (getCellKey row col) = Some (CHR ''='' # expr)"
  shows "displayValue (Suc n) h g c s row col =
    (case replaceAll (displayValue n h g) g (getCellKey row col) [] c s False [] (pieces expr) of
       None \<Rightarrow> None
     | Some (Inl msg, seen, c', s', b) \<Rightarrow> Some (Displays msg (c'(getCellKey row col \<mapsto> msg)) s' b)
     | Some (Inr parsedExpr, seen, c', s', b) \<Rightarrow>
         (case h s' (functionBody parsedExpr) of
            None \<Rightarrow> None
          | Some (r, s'') \<Rightarrow>
              Some (Displays (completionText r) (c'(getCellKey row col \<mapsto> completionText r)) s'' b)))"
  using assms by (simp add: getValue_def startsWithEq_def Let_def)

text \<open>
  C5. When the scan of a formula reaches a reference token (the tokens before it were
  substituted) whose key is the key of the cell being evaluated, or the key of a token
  substituted before it in the same formula, \<open>displayValue\<close> returns
  \<open>Circular reference\<close>, with the cache as the substitutions before the token left it:
  nothing after the token is substituted. So \<open>=A1\<close> and \<open>=A1+A1\<close> in A1, and \<open>=A1+A1\<close>
  in B1, display \<open>Circular reference\<close>.
\<close>

theorem circular_reference_check:
  "(cached c (getCellKey row col) = None \<longrightarrow>
    g (getCellKey row col) = Some (CHR ''='' # expr) \<longrightarrow>
    pieces expr = pre @ Token label # post \<longrightarrow>
    replaceAll (displayValue n h g) g (getCellKey row col) [] c s False [] pre
      = Some (Inr out, seen, c', s', b) \<longrightarrow>
    labelToCellKey label = Some key \<longrightarrow>
    (key = getCellKey row col \<or> (\<exists>l. Token l \<in> set pre \<and> labelToCellKey l = Some key)) \<longrightarrow>
    displayValue (Suc n) h g c s row col =
      Some (Displays ''Circular reference'' (c'(getCellKey row col \<mapsto> ''Circular reference'')) s' b)) \<and>
   displayText (Suc n) h (setValue initialState 0 0 ''=A1'') s 0 0 = Some ''Circular reference'' \<and>
   displayText (Suc n) h (setValue initialState 0 0 ''=A1+A1'') s 0 0 = Some ''Circular reference'' \<and>
   displayText (Suc n) h (setValue (setValue initialState 0 0 ''5'') 0 1 ''=A1+A1'') s 0 1
     = Some ''Circular reference''"
proof (intro conjI impI)
  assume miss: "cached c (getCellKey row col) = None"
    and raw: "g (getCellKey row col) = Some (CHR ''='' # expr)"
    and ps: "pieces expr = pre @ Token label # post"
    and pre: "replaceAll (displayValue n h g) g (getCellKey row col) [] c s False [] pre
      = Some (Inr out, seen, c', s', b)"
    and key: "labelToCellKey label = Some key"
    and dup: "key = getCellKey row col \<or> (\<exists>l. Token l \<in> set pre \<and> labelToCellKey l = Some key)"
  from replaceAll_seen [OF pre] dup have "key \<in> set seen \<or> key = getCellKey row col"
    by auto
  then have "replacer (displayValue n h g) g (getCellKey row col) seen c' s' label
      = Some (Inl ''Circular reference'', seen, c', s', False)"
    by (rule replacer_circular [OF key])
  then have "replaceAll (displayValue n h g) g (getCellKey row col) [] c s False [] (pieces expr)
      = Some (Inl ''Circular reference'', seen, c', s', b)"
    by (simp add: ps replaceAll_append pre)
  then show "displayValue (Suc n) h g c s row col =
      Some (Displays ''Circular reference'' (c'(getCellKey row col \<mapsto> ''Circular reference'')) s' b)"
    by (simp add: displayValue_formula [where c = c and g = g and expr = expr, OF miss raw]
        del: displayValue.simps)
next
  show "displayText (Suc n) h (setValue initialState 0 0 ''=A1'') s 0 0 = Some ''Circular reference''"
    by (simp add: displayText_def shown_def state_simps key_A1 pieces_samples replacer_def)
next
  show "displayText (Suc n) h (setValue initialState 0 0 ''=A1+A1'') s 0 0 = Some ''Circular reference''"
    by (simp add: displayText_def shown_def state_simps key_A1 pieces_samples replacer_def)
next
  show "displayText (Suc n) h (setValue (setValue initialState 0 0 ''5'') 0 1 ''=A1+A1'') s 0 1
     = Some ''Circular reference''"
    by (simp add: displayText_def shown_def state_simps key_A1 key_B1 pieces_samples replacer_def
        isNaNNumber_samples)
qed

theorem circular_reference_check_witness:
  "cached Map.empty (getCellKey 0 1) = None \<and>
   [''0,0'' \<mapsto> ''5'', ''0,1'' \<mapsto> ''=A1+A1''] (getCellKey 0 1) = Some (CHR ''='' # ''A1+A1'') \<and>
   pieces ''A1+A1'' = [Token ''A1'', Plain CHR ''+''] @ Token ''A1'' # [] \<and>
   replaceAll (displayValue 0 (textHost echoHost) [''0,0'' \<mapsto> ''5'', ''0,1'' \<mapsto> ''=A1+A1''])
     [''0,0'' \<mapsto> ''5'', ''0,1'' \<mapsto> ''=A1+A1''] (getCellKey 0 1) [] Map.empty () False []
     [Token ''A1'', Plain CHR ''+''] = Some (Inr ''5+'', [''0,0''], Map.empty, (), False) \<and>
   labelToCellKey ''A1'' = Some ''0,0'' \<and>
   Token ''A1'' \<in> set [Token ''A1'', Plain CHR ''+''] \<and>
   displayValue 1 (textHost echoHost) [''0,0'' \<mapsto> ''5'', ''0,1'' \<mapsto> ''=A1+A1''] Map.empty () 0 1 =
     Some (Displays ''Circular reference'' [getCellKey 0 1 \<mapsto> ''Circular reference''] () False)"
proof -
  let ?g = "[''0,0'' \<mapsto> ''5'', ''0,1'' \<mapsto> ''=A1+A1'']"
  have a: "cached Map.empty (getCellKey 0 1) = None" by (simp add: cached_def)
  have b: "?g (getCellKey 0 1) = Some (CHR ''='' # ''A1+A1'')" by (simp add: key_B1)
  have c: "pieces ''A1+A1'' = [Token ''A1'', Plain CHR ''+''] @ Token ''A1'' # []"
    by (simp add: pieces_samples)
  have d: "replaceAll (displayValue 0 (textHost echoHost) ?g) ?g (getCellKey 0 1) [] Map.empty () False []
     [Token ''A1'', Plain CHR ''+''] = Some (Inr ''5+'', [''0,0''], Map.empty, (), False)"
    by (simp add: key_A1 key_B1 replacer_def startsWithEq_def isNaNNumber_samples)
  have e: "labelToCellKey ''A1'' = Some ''0,0''" by (simp add: key_A1)
  have f: "''0,0'' = getCellKey 0 1 \<or> (\<exists>l. Token l \<in> set [Token ''A1'', Plain CHR ''+''] \<and> labelToCellKey l = Some ''0,0'')"
    using e by auto
  from circular_reference_check [THEN conjunct1, rule_format, OF a b c d e f]
  show ?thesis using a b c d e by simp
qed

lemma key_ZZZ: "labelToCellKey ''ZZZ99999'' = Some ''99998,18277''"
  by (simp add: key_simps)

lemma replacer_unset:
  assumes "labelToCellKey label = Some key" "key \<notin> set seen" "key \<noteq> cellKey"
    and "g key = None \<or> g key = Some []"
  shows "replacer dv g cellKey seen c s label = Some (Inr ''0'', key # seen, c, s, False)"
  using assms by (auto simp: replacer_def)

text \<open>
  C8. A reference token whose key has no stored content, or the empty text, and that
  passes the circular-reference check (the key is not the evaluated cell's and was not
  referenced earlier in the formula) is replaced by \<open>0\<close>, and the scan goes on with the
  next piece; no bound on the row or the column is looked at. So \<open>=ZZZ99999+1\<close>
  displays \<open>1\<close> on a host that agrees with the arithmetic fragment.
\<close>

theorem unset_reference_is_zero:
  "(labelToCellKey label = Some key \<longrightarrow> key \<notin> set seen \<longrightarrow> key \<noteq> cellKey \<longrightarrow>
      (g key = None \<or> g key = Some []) \<longrightarrow>
      replacer dv g cellKey seen c s label = Some (Inr ''0'', key # seen, c, s, False) \<and>
      replaceAll dv g cellKey seen c s b out (Token label # ps) =
        replaceAll dv g cellKey (key # seen) c s b (out @ ''0'') ps) \<and>
   (extendsArithmetic h \<longrightarrow>
      displayText (Suc n) h (setValue initialState 0 0 ''=ZZZ99999+1'') s' 0 0 = Some ''1'')"
proof (intro conjI impI)
  assume a: "labelToCellKey label = Some key" "key \<notin> set seen" "key \<noteq> cellKey"
    "g key = None \<or> g key = Some []"
  show r: "replacer dv g cellKey seen c s label = Some (Inr ''0'', key # seen, c, s, False)"
    using a by (rule replacer_unset)
  show "replaceAll dv g cellKey seen c s b out (Token label # ps) =
        replaceAll dv g cellKey (key # seen) c s b (out @ ''0'') ps"
    by (simp add: r)
next
  assume h: "extendsArithmetic h"
  obtain s2 where "h s' (functionBody ''0+1'') = Some (Returned (Some ''1''), s2)"
    using extendsArithmeticD [OF h jsArithmetic_samples(4), of s'] by (auto simp: functionBody_def)
  then show "displayText (Suc n) h (setValue initialState 0 0 ''=ZZZ99999+1'') s' 0 0 = Some ''1''"
    by (simp add: displayText_def shown_def state_simps key_A1 key_ZZZ pieces_samples replacer_def
        completionText_def)
qed

theorem unset_reference_is_zero_witness:
  "labelToCellKey ''ZZZ99999'' = Some ''99998,18277'' \<and>
   [''0,0'' \<mapsto> ''=ZZZ99999+1''] ''99998,18277'' = None \<and>
   replacer (displayValue 0 (textHost arithmeticHost) [''0,0'' \<mapsto> ''=ZZZ99999+1''])
     [''0,0'' \<mapsto> ''=ZZZ99999+1''] ''0,0'' [] Map.empty () ''ZZZ99999''
     = Some (Inr ''0'', [''99998,18277''], Map.empty, (), False) \<and>
   extendsArithmetic (textHost arithmeticHost :: unit host) \<and>
   displayText 1 (textHost arithmeticHost) (setValue initialState 0 0 ''=ZZZ99999+1'') () 0 0 = Some ''1''"
proof -
  let ?g = "[''0,0'' \<mapsto> ''=ZZZ99999+1'']"
  have a: "labelToCellKey ''ZZZ99999'' = Some ''99998,18277''" by (rule key_ZZZ)
  have b: "''99998,18277'' \<notin> set ([] :: string list)" "''99998,18277'' \<noteq> ''0,0''" by simp_all
  have c: "?g ''99998,18277'' = None \<or> ?g ''99998,18277'' = Some []" by simp
  have "replacer (displayValue 0 (textHost arithmeticHost) ?g) ?g ''0,0'' [] Map.empty () ''ZZZ99999''
      = Some (Inr ''0'', [''99998,18277''], Map.empty, (), False)"
    using unset_reference_is_zero [THEN conjunct1, rule_format,
        where g = "[''0,0'' \<mapsto> ''=ZZZ99999+1'']" and seen = "[]", OF a b c, THEN conjunct1] .
  moreover have "displayText 1 (textHost arithmeticHost) (setValue initialState 0 0 ''=ZZZ99999+1'') () 0 0
      = Some ''1''"
    using unset_reference_is_zero [THEN conjunct2, rule_format,
        OF extendsArithmetic_arithmeticHost [where 'a = unit], of 0 "()"]
    by simp
  ultimately show ?thesis using a extendsArithmetic_arithmeticHost [where 'a = unit] by simp
qed

theorem repeated_unset_reference_counterexample:
  "gridData (setValue initialState 0 0 ''=C1+C1'') ''0,2'' = None \<and>
   pieces ''C1+C1'' = [Token ''C1'', Plain CHR ''+'', Token ''C1''] \<and>
   labelToCellKey ''C1'' = Some ''0,2'' \<and>
   arithmeticHost (functionBody ''0+0'') = Some (Returned (Some ''0'')) \<and>
   displayText 1 (textHost arithmeticHost) (setValue initialState 0 0 ''=C1+C1'') () 0 0
     = Some ''Circular reference''"
proof -
  have "arithmeticHost (functionBody ''0+0'') = Some (Returned (Some ''0''))"
    by (simp add: arithmeticHost_def functionBody_def jsArithmetic_samples)
  moreover have "displayText 1 (textHost arithmeticHost) (setValue initialState 0 0 ''=C1+C1'') () 0 0
      = Some ''Circular reference''"
    by (simp add: displayText_def shown_def state_simps key_A1 key_C1 pieces_samples replacer_def)
  moreover have "gridData (setValue initialState 0 0 ''=C1+C1'') ''0,2'' = None"
    by (simp add: state_simps key_A1)
  ultimately show ?thesis by (simp add: pieces_samples key_C1)
qed

subsection \<open>The host call\<close>

text \<open>
  C3. Nothing stands between the substitution and the host: when the scan of a formula
  returns the text \<open>parsedExpr\<close>, \<open>displayValue\<close> gives \<open>return\<close>, a space and that
  text to the host as the body of a function, whatever the text is, and its display
  text is what the host's call comes to: the text of the returned value, the message
  of a thrown error, or \<open>ERR\<close>.
\<close>

theorem host_runs_substituted_text:
  "cached c (getCellKey row col) = None \<Longrightarrow>
   g (getCellKey row col) = Some (CHR ''='' # expr) \<Longrightarrow>
   replaceAll (displayValue n h g) g (getCellKey row col) [] c s False [] (pieces expr)
     = Some (Inr parsedExpr, seen, c', s', b) \<Longrightarrow>
   displayValue (Suc n) h g c s row col =
     (case h s' (''return '' @ parsedExpr) of
        None \<Rightarrow> None
      | Some (r, s'') \<Rightarrow>
          Some (Displays (completionText r) (c'(getCellKey row col \<mapsto> completionText r)) s'' b))"
  by (simp add: displayValue_formula [where c = c and g = g and expr = expr] functionBody_def
      del: displayValue.simps)

theorem host_runs_substituted_text_witness:
  "cached Map.empty (getCellKey 0 0) = None \<and>
   [''0,0'' \<mapsto> ''=alert(1)''] (getCellKey 0 0) = Some (CHR ''='' # ''alert(1)'') \<and>
   replaceAll (displayValue 0 (textHost echoHost) [''0,0'' \<mapsto> ''=alert(1)'']) [''0,0'' \<mapsto> ''=alert(1)'']
     (getCellKey 0 0) [] Map.empty () False [] (pieces ''alert(1)'')
     = Some (Inr ''alert(1)'', [], Map.empty, (), False) \<and>
   displayValue 1 (textHost echoHost) [''0,0'' \<mapsto> ''=alert(1)''] Map.empty () 0 0 =
     Some (Displays ''return alert(1)'' [getCellKey 0 0 \<mapsto> ''return alert(1)''] () False)"
proof -
  let ?g = "[''0,0'' \<mapsto> ''=alert(1)'']"
  have a: "cached Map.empty (getCellKey 0 0) = None" by (simp add: cached_def)
  have b: "?g (getCellKey 0 0) = Some (CHR ''='' # ''alert(1)'')" by (simp add: key_A1)
  have c: "replaceAll (displayValue 0 (textHost echoHost) ?g) ?g (getCellKey 0 0) [] Map.empty () False []
      (pieces ''alert(1)'') = Some (Inr ''alert(1)'', [], Map.empty, (), False)"
    by (simp add: pieces_samples)
  from host_runs_substituted_text [where h = "textHost echoHost" and g = ?g and c = Map.empty, OF a b c]
  show ?thesis using a b c by (simp add: echoHost_def textHost_def completionText_def)
qed

theorem host_runs_text_outside_grammar:
  "\<not> operatorSetText None ''alert(1)'' \<and>
   displayText 1 (textHost echoHost) (setValue initialState 0 0 ''=alert(1)'') () 0 0
     = Some ''return alert(1)''"
  by (simp add: displayText_def shown_def state_simps key_A1 pieces_samples echoHost_def textHost_def
      functionBody_def completionText_def char_simps)

subsection \<open>Evaluations return\<close>









lemma keyToCoords_samples: "keyToCoords ''0,0'' = Some (0, 0)" "keyToCoords ''0,1'' = Some (0, 1)"
  "keyToCoords ''0,2'' = Some (0, 2)"
  using keyToCoords_getCellKey [of 0 0] keyToCoords_getCellKey [of 0 1] keyToCoords_getCellKey [of 0 2]
  by (simp_all add: key_A1 key_B1 key_C1)





subsection \<open>A cycle of two formula cells\<close>

lemma mutualCycle_grid: "gridData mutualCycle = [''0,0'' \<mapsto> ''=B1'', ''0,1'' \<mapsto> ''=A1'']"
  by (simp add: mutualCycle_def state_simps key_A1 key_B1)

lemma cycle_step:
  assumes miss: "cached c ''0,0'' = None" "cached c ''0,1'' = None"
  shows "displayValue (Suc n) h (gridData mutualCycle) c s 0 0 =
      (case displayValue n h (gridData mutualCycle) c s 0 1 of
         None \<Rightarrow> None
       | Some RangeError \<Rightarrow> Some (Displays stackOverflowMessage (c(''0,0'' \<mapsto> stackOverflowMessage)) s True)
       | Some (Displays t c' s' b) \<Rightarrow>
           (case h s' (functionBody t) of
              None \<Rightarrow> None
            | Some (r, s'') \<Rightarrow> Some (Displays (completionText r) (c'(''0,0'' \<mapsto> completionText r)) s'' b)))"
    and "displayValue (Suc n) h (gridData mutualCycle) c s 0 1 =
      (case displayValue n h (gridData mutualCycle) c s 0 0 of
         None \<Rightarrow> None
       | Some RangeError \<Rightarrow> Some (Displays stackOverflowMessage (c(''0,1'' \<mapsto> stackOverflowMessage)) s True)
       | Some (Displays t c' s' b) \<Rightarrow>
           (case h s' (functionBody t) of
              None \<Rightarrow> None
            | Some (r, s'') \<Rightarrow> Some (Displays (completionText r) (c'(''0,1'' \<mapsto> completionText r)) s'' b)))"
  using miss
  by (simp_all add: mutualCycle_grid key_A1 key_B1 getValue_def startsWithEq_def pieces_samples
      replacer_def keyToCoords_samples split: option.splits outcome.splits)

lemma unwind_next:
  assumes "(case inner of
           None \<Rightarrow> None
         | Some RangeError \<Rightarrow> Some (Displays stackOverflowMessage c1 s True)
         | Some (Displays t c' s' b) \<Rightarrow>
             (case h s' (functionBody t) of
                None \<Rightarrow> None
              | Some (r, s'') \<Rightarrow> Some (Displays (completionText r) (c2 t c' r) s'' b)))
          = Some (Displays tx cx sx bx)"
    and "\<And>t c' s' b. inner = Some (Displays t c' s' b) \<Longrightarrow> t \<in> unwindTexts h"
  shows "tx \<in> unwindTexts h"
proof (cases inner)
  case None
  with assms(1) show ?thesis by simp
next
  case (Some res)
  show ?thesis
  proof (cases res)
    case RangeError
    with Some assms(1) show ?thesis by (auto intro: unwindTexts.overflow)
  next
    case (Displays t c' s' b)
    with Some assms(2) have "t \<in> unwindTexts h" by blast
    with Some Displays assms(1) show ?thesis
      by (auto split: option.splits intro: unwindTexts.garbled)
  qed
qed

lemma cycle_texts:
  assumes miss: "cached c ''0,0'' = None" "cached c ''0,1'' = None"
  shows "\<forall>t c' s' b.
     (displayValue n h (gridData mutualCycle) c s 0 0 = Some (Displays t c' s' b) \<longrightarrow> t \<in> unwindTexts h) \<and>
     (displayValue n h (gridData mutualCycle) c s 0 1 = Some (Displays t c' s' b) \<longrightarrow> t \<in> unwindTexts h)"
proof (induction n)
  case 0
  then show ?case by simp
next
  case (Suc n)
  show ?case
  proof (intro allI conjI impI)
    fix t c' s' b
    assume "displayValue (Suc n) h (gridData mutualCycle) c s 0 0 = Some (Displays t c' s' b)"
    then show "t \<in> unwindTexts h"
      unfolding cycle_step [OF miss]
      by (rule unwind_next) (use Suc.IH in blast)
  next
    fix t c' s' b
    assume "displayValue (Suc n) h (gridData mutualCycle) c s 0 1 = Some (Displays t c' s' b)"
    then show "t \<in> unwindTexts h"
      unfolding cycle_step [OF miss]
      by (rule unwind_next) (use Suc.IH in blast)
  qed
qed


lemma arithmeticHost_garbles:
  "arithmeticHost (functionBody stackOverflowMessage) = Some (ThrewError ''Unexpected token'')"
  "arithmeticHost (functionBody ''Unexpected token'') = Some (ThrewError ''Unexpected token'')"
  by (simp_all add: arithmeticHost_def functionBody_def stackOverflowMessage_def jsArithmetic_def
      literalOk_def char_simps)

lemma unwindTexts_arithmeticHost:
  "t \<in> unwindTexts (textHost arithmeticHost) \<Longrightarrow> t = stackOverflowMessage \<or> t = ''Unexpected token''"
proof (induction rule: unwindTexts.induct)
  case overflow
  then show ?case by simp
next
  case (garbled t s r s')
  then show ?case
    by (auto simp: textHost_def arithmeticHost_garbles completionText_def)
qed

text \<open>
  C1. In the state after \<open>setRaw(A1, "=B1")\<close> and \<open>setRaw(B1, "=A1")\<close> the evaluation of
  A1 enters B1, which enters A1 again with a new, empty set of referenced keys: the
  check never fires and the calls nest until the stack is exhausted. The text that
  comes back is the message of the host's \<open>RangeError\<close>, or what the host makes of
  that text, handed up as an expression from activation to activation. On a host that
  turns none of these texts into \<open>Circular reference\<close>, neither A1 nor B1 displays
  \<open>Circular reference\<close>.
\<close>

theorem mutual_cycle_not_detected:
  "(displayValue n h (gridData mutualCycle) (calculationCache mutualCycle) s 0 0
      = Some (Displays t c' s' b) \<longrightarrow> t \<in> unwindTexts h) \<and>
   (displayValue n h (gridData mutualCycle) (calculationCache mutualCycle) s 0 1
      = Some (Displays t c' s' b) \<longrightarrow> t \<in> unwindTexts h) \<and>
   (''Circular reference'' \<notin> unwindTexts h \<longrightarrow>
      displayText n h mutualCycle s 0 0 \<noteq> Some ''Circular reference'' \<and>
      displayText n h mutualCycle s 0 1 \<noteq> Some ''Circular reference'')"
proof -
  have "calculationCache mutualCycle = Map.empty" by (simp add: mutualCycle_def setValue_def)
  then have "cached (calculationCache mutualCycle) ''0,0'' = None"
    "cached (calculationCache mutualCycle) ''0,1'' = None"
    by (simp_all add: cached_def)
  note ct = cycle_texts [OF this, of n h s]
  then show ?thesis
    by (auto simp: displayText_def shown_def split: option.splits outcome.splits)
qed

theorem mutual_cycle_not_detected_witness:
  "displayValue (Suc (Suc 0)) (textHost arithmeticHost) (gridData mutualCycle)
      (calculationCache mutualCycle) () 0 0
     = Some (Displays ''Unexpected token''
         [''0,1'' \<mapsto> stackOverflowMessage, ''0,0'' \<mapsto> ''Unexpected token''] () True) \<and>
   ''Unexpected token'' \<in> unwindTexts (textHost arithmeticHost :: unit host) \<and>
   ''Circular reference'' \<notin> unwindTexts (textHost arithmeticHost :: unit host) \<and>
   displayText (Suc (Suc 0)) (textHost arithmeticHost) mutualCycle () 0 0 \<noteq> Some ''Circular reference'' \<and>
   displayText (Suc (Suc 0)) (textHost arithmeticHost) mutualCycle () 0 1 \<noteq> Some ''Circular reference''"
proof -
  let ?h = "textHost arithmeticHost :: unit host"
  have c: "calculationCache mutualCycle = Map.empty" by (simp add: mutualCycle_def setValue_def)
  have d: "displayValue (Suc (Suc 0)) ?h (gridData mutualCycle) (calculationCache mutualCycle) () 0 0
     = Some (Displays ''Unexpected token''
         [''0,1'' \<mapsto> stackOverflowMessage, ''0,0'' \<mapsto> ''Unexpected token''] () True)"
    by (simp add: c cycle_step cached_def textHost_def arithmeticHost_garbles completionText_def
        del: displayValue.simps(2))
  have n: "''Circular reference'' \<notin> unwindTexts ?h"
    using unwindTexts_arithmeticHost [of "''Circular reference''"]
    by (auto simp: stackOverflowMessage_def)
  note t = mutual_cycle_not_detected [where h = ?h and n = "Suc (Suc 0)" and s = "()"]
  from t [THEN conjunct1, rule_format, OF d] t [THEN conjunct2, THEN conjunct2, rule_format, OF n]
  show ?thesis using d n by simp
qed

subsection \<open>Evaluation without the cache\<close>












lemma replacer_uncached:
  "replacer (uncached f) g k seen c0 s0 label = Some (res, seen', cx, sx, bx) \<Longrightarrow>
     cx = c0 \<and> sx = s0 \<and> \<not> bx"
  unfolding replacer_def uncached_def
  by (auto split: option.splits if_splits prod.splits outcome.splits)

lemma replaceAll_uncached:
  "replaceAll (uncached f) g k seen c0 s0 b out ps = Some (res, seen', cx, sx, bx) \<Longrightarrow>
     cx = c0 \<and> sx = s0 \<and> bx = b"
proof (induction ps arbitrary: seen out)
  case Nil
  then show ?case by auto
next
  case (Cons p ps)
  show ?case
  proof (cases p)
    case (Plain ch)
    with Cons show ?thesis by simp
  next
    case (Token label)
    with Cons.prems obtain r s1 c1 hs1 b1 where
      r: "replacer (uncached f) g k seen c0 s0 label = Some (r, s1, c1, hs1, b1)"
      by (auto split: option.splits)
    from replacer_uncached [OF r] have e: "c1 = c0" "hs1 = s0" "\<not> b1" by simp_all
    show ?thesis
    proof (cases r)
      case (Inl msg)
      with Cons.prems Token r e show ?thesis by auto
    next
      case (Inr tx)
      with Cons.prems Token r e
      have "replaceAll (uncached f) g k s1 c0 s0 b (out @ tx) ps = Some (res, seen', cx, sx, bx)"
        by simp
      then show ?thesis by (rule Cons.IH)
    qed
  qed
qed

subsection \<open>The cache of a state and the text the grid determines\<close>




















subsection \<open>A chain longer than the stack\<close>








lemma stateful_host_changes_text:
  "displayValue (Suc 0) tickHost [''0,0'' \<mapsto> ''=Math.random()''] Map.empty 0 0 0
     = Some (Displays ''0'' [''0,0'' \<mapsto> ''0''] (Suc 0) False)"
  "displayValue (Suc 0) tickHost [''0,0'' \<mapsto> ''=Math.random()''] Map.empty (Suc 0) 0 0
     = Some (Displays ''1'' [''0,0'' \<mapsto> ''1''] (Suc (Suc 0)) False)"
  by (simp_all add: key_A1 getValue_def startsWithEq_def cached_def pieces.simps matchLabel_def
      tickHost_def completionText_def Let_def decimal_simps char_simps)




end
